theory Spec2Isabelle
  imports Main "HOL-Library.Word" "HOL-Library.AList"
begin

section \<open>Package client: one connected client\<close>

text \<open>
  Payloads are Go byte slices; a \<open>char\<close> is one byte, so a payload is a \<open>string\<close>.
  Go errors of this repository are built by \<open>errors.New\<close> and \<open>fmt.Errorf\<close>: a value
  of \<open>error\<close> is one of the messages the two packages build, and \<open>Error\<close> is its text.
  \<open>ReadError\<close> is the error that reading a request body returned.
\<close>

type_synonym payload = string

datatype error =
    DeliveryTimeout string
  | UnknownClient string
  | MalformedClient
  | MalformedEntry string
  | StreamingUnsupported
  | DuplicateClient string
  | ReadError string
  | Joined string

fun Error :: "error \<Rightarrow> string" where
  "Error (DeliveryTimeout i) = ''failed to write to client '' @ i @ '', timeout exceeded''"
| "Error (UnknownClient i) = ''no client with id '' @ i @ '' exists''"
| "Error MalformedClient = ''client is malformed, disconnecting''"
| "Error (MalformedEntry k) = ''found malformed client with id '' @ k @ '', disconnecting''"
| "Error StreamingUnsupported = ''client does not support streaming''"
| "Error (DuplicateClient i) = ''a client with id '' @ i @ '' already exists''"
| "Error (ReadError m) = m"
| "Error (Joined m) = m"

text \<open>
  The struct \<open>Client\<close>. \<open>failures\<close> and \<open>tolerance\<close> are Go \<open>int\<close>s (64 bits on the
  usual platforms, compared as signed numbers), \<open>timeout\<close> is a \<open>time.Duration\<close>
  (an \<open>int64\<close>). The unbuffered channel \<open>notify\<close> stores nothing; the model keeps
  the payloads that went through it, oldest first, so that what a listener received
  can be stated.
\<close>

record Client =
  id_c :: string
  notify :: "payload list"
  timeout :: "64 word"
  failures :: "64 word"
  tolerance :: "64 word"

text \<open>
  \<open>New\<close> of package client. The identifier that \<open>xid.New().String()\<close> generates
  is the parameter \<open>xid\<close>.
\<close>

definition client_New :: "64 word \<Rightarrow> 64 word \<Rightarrow> string \<Rightarrow> string \<Rightarrow> Client" where
  "client_New tmo tol i xid =
     (let ret = \<lparr>id_c = i, notify = [], timeout = tmo, failures = 0, tolerance = tol\<rparr>
      in if i = [] then ret\<lparr>id_c := xid\<rparr> else ret)"

definition ID :: "Client \<Rightarrow> string" where
  "ID c = id_c c"


text \<open>
  \<open>Write\<close> is one \<open>select\<close> with two cases. Which case fires is decided by the
  Go scheduler and the timer, outside the program: it is the argument of type
  \<open>select_case\<close>. \<open>Sent\<close> is \<open>case c.notify <- data\<close> (a receiver took the payload),
  \<open>Ticked\<close> is \<open>case <-time.Tick(c.timeout)\<close>. The result is the client after the
  call and the error returned (\<open>None\<close> is Go's \<open>nil\<close>). Whether any case can fire
  at all is the subject of \<open>Write_call\<close> below.
\<close>

datatype select_case = Sent | Ticked

fun Write :: "Client \<Rightarrow> select_case \<Rightarrow> payload \<Rightarrow> Client \<times> error option" where
  "Write c Sent data = (c\<lparr>notify := notify c @ [data], failures := 0\<rparr>, None)"
| "Write c Ticked data = (c\<lparr>failures := failures c + 1\<rparr>, Some (DeliveryTimeout (id_c c)))"



definition ShouldDisconnect :: "Client \<Rightarrow> bool" where
  "ShouldDisconnect c = (sint (tolerance c) \<le> sint (failures c))"

text \<open>
  A history of \<open>Write\<close> calls on one client, oldest first, and the number of
  timed-out calls at its end (the calls since the last hand-off, or since creation).
\<close>

fun writes :: "Client \<Rightarrow> (select_case \<times> payload) list \<Rightarrow> Client" where
  "writes c [] = c"
| "writes c ((s, data) # h) = writes (fst (Write c s data)) h"

definition streak :: "(select_case \<times> payload) list \<Rightarrow> nat" where
  "streak h = length (takeWhile (\<lambda>(s, data). s = Ticked) (rev h))"

section \<open>Package broker: the registry and its operations\<close>

text \<open>
  The registry is a \<open>sync.Map\<close>: its values have type \<open>interface{}\<close>, so a value
  is a pointer to a \<open>Client\<close> or something else (\<open>Other\<close>). The map is an association
  list; the order of the list stands for the order in which \<open>Range\<close> visits the
  keys, which Go leaves open. \<open>Store\<close> replaces the value of a key that is present
  and adds the key otherwise; \<open>Delete\<close> removes the key.
\<close>

datatype item = Conn Client | Other

type_synonym sync_Map = "(string \<times> item) list"

definition Load :: "sync_Map \<Rightarrow> string \<Rightarrow> item option" where
  "Load m k = map_of m k"

definition Store :: "sync_Map \<Rightarrow> string \<Rightarrow> item \<Rightarrow> sync_Map" where
  "Store m k v = AList.update k v m"

definition Delete :: "sync_Map \<Rightarrow> string \<Rightarrow> sync_Map" where
  "Delete m k = AList.delete k m"

text \<open>
  The HTTP side. A response writer records what was written to it (\<open>wire\<close>), its
  status code and its headers; \<open>is_Flusher\<close> and \<open>is_CloseNotifier\<close> say whether the
  type assertions \<open>w.(http.Flusher)\<close> and \<open>w.(http.CloseNotifier)\<close> succeed. A request
  carries the result of reading its body (\<open>Inl\<close> a read error) and its query
  parameters in the order they appear in the URL. \<open>Query_Get\<close> is \<open>url.Values.Get\<close>:
  the first value of the key, the empty string if there is none.
\<close>

datatype wire_op = Body string | Flushed

record ResponseWriter =
  is_Flusher :: bool
  is_CloseNotifier :: bool
  header :: "(string \<times> string) list"
  status :: "nat option"
  wire :: "wire_op list"

record Request =
  body :: "string + payload"
  query :: "(string \<times> string) list"

definition Query_Get :: "(string \<times> string) list \<Rightarrow> string \<Rightarrow> string" where
  "Query_Get q k = (case map_of q k of None \<Rightarrow> [] | Some v \<Rightarrow> v)"

definition Header_Set :: "ResponseWriter \<Rightarrow> string \<Rightarrow> string \<Rightarrow> ResponseWriter" where
  "Header_Set w k v = w\<lparr>header := AList.update k v (header w)\<rparr>"

definition WriteHeader :: "ResponseWriter \<Rightarrow> nat \<Rightarrow> ResponseWriter" where
  "WriteHeader w code = w\<lparr>status := Some code\<rparr>"

definition Flush :: "ResponseWriter \<Rightarrow> ResponseWriter" where
  "Flush w = w\<lparr>wire := wire w @ [Flushed]\<rparr>"

text \<open>\<open>fmt.Fprintf(w, "data: %s\n\n", data)\<close>\<close>

definition Fprintf_data :: "ResponseWriter \<Rightarrow> payload \<Rightarrow> ResponseWriter" where
  "Fprintf_data w data = w\<lparr>wire := wire w @ [Body (''data: '' @ data @ ''\<newline>\<newline>'')]\<rparr>"

text \<open>
  \<open>http.Error\<close> of net/http: the message as plain text, with the status code.
\<close>

definition http_Error :: "ResponseWriter \<Rightarrow> string \<Rightarrow> nat \<Rightarrow> ResponseWriter" where
  "http_Error w msg code =
     (let w = Header_Set w ''Content-Type'' ''text/plain; charset=utf-8'';
          w = Header_Set w ''X-Content-Type-Options'' ''nosniff'';
          w = WriteHeader w code
      in w\<lparr>wire := wire w @ [Body (msg @ ''\<newline>'')]\<rparr>)"

type_synonym ErrorHandler = "ResponseWriter \<Rightarrow> Request \<Rightarrow> error \<Rightarrow> ResponseWriter"

record defaultBroker =
  timeout_b :: "64 word"
  clients :: sync_Map
  errorHandler :: "ErrorHandler option"
  tolerance_b :: "64 word"

definition broker_New :: "64 word \<Rightarrow> 64 word \<Rightarrow> ErrorHandler option \<Rightarrow> defaultBroker" where
  "broker_New tmo tol eh =
     \<lparr>timeout_b = tmo, clients = [], errorHandler = eh, tolerance_b = tol\<rparr>"

definition addClient :: "defaultBroker \<Rightarrow> Client \<Rightarrow> defaultBroker" where
  "addClient b c = b\<lparr>clients := Store (clients b) (ID c) (Conn c)\<rparr>"

definition removeClient :: "defaultBroker \<Rightarrow> string \<Rightarrow> defaultBroker" where
  "removeClient b i = b\<lparr>clients := Delete (clients b) i\<rparr>"

text \<open>\<open>listenForClose\<close> once the close notification has arrived.\<close>

definition listenForClose :: "defaultBroker \<Rightarrow> string \<Rightarrow> defaultBroker" where
  "listenForClose b i = removeClient b i"

definition hasClient :: "defaultBroker \<Rightarrow> string \<Rightarrow> bool" where
  "hasClient b i = (case Load (clients b) i of None \<Rightarrow> False | Some v \<Rightarrow> True)"

definition httpError ::
  "defaultBroker \<Rightarrow> ResponseWriter \<Rightarrow> Request \<Rightarrow> error \<Rightarrow> nat \<Rightarrow> ResponseWriter" where
  "httpError b w r err code =
     (case errorHandler b of
        Some eh \<Rightarrow> eh w r err
      | None \<Rightarrow> http_Error w (Error err) code)"

text \<open>
  The registry holds pointers: \<open>Write\<close> changes the client that the entry points
  to. The model stores the changed client back under the key it was loaded from.
  The argument \<open>sel\<close> gives, for the key of the client written to, the case of the
  \<open>select\<close> in \<open>Write\<close> that fires.
\<close>

definition BroadcastTo ::
  "defaultBroker \<Rightarrow> (string \<Rightarrow> select_case) \<Rightarrow> string \<Rightarrow> payload \<Rightarrow> defaultBroker \<times> error option" where
  "BroadcastTo b sel i data =
     (case Load (clients b) i of
        None \<Rightarrow> (b, Some (UnknownClient i))
      | Some Other \<Rightarrow> (removeClient b i, Some MalformedClient)
      | Some (Conn c) \<Rightarrow>
          (case Write c (sel i) data of
             (c', err) \<Rightarrow> (b\<lparr>clients := Store (clients b) i (Conn c')\<rparr>, err)))"

text \<open>
  A call either returns a value or panics. \<open>Broadcast_func\<close> is the function
  literal that \<open>Broadcast\<close> passes to \<open>Range\<close>; its state is the broker and the
  slice \<open>out\<close>. When the type assertion fails, \<open>client\<close> is the nil pointer: the
  function records the error, deletes the key, and goes on to \<open>client.Write(data)\<close>,
  which reads \<open>c.notify\<close> through the nil pointer and panics.
\<close>

datatype 'a result = Panic | Return 'a

definition Broadcast_func ::
  "payload \<Rightarrow> (string \<Rightarrow> select_case) \<Rightarrow> defaultBroker \<times> string list \<Rightarrow> string \<Rightarrow> item
     \<Rightarrow> (defaultBroker \<times> string list) \<times> bool result" where
  "Broadcast_func data sel st key val =
     (case st of (b, out) \<Rightarrow>
        (case val of
           Other \<Rightarrow>
             ((b\<lparr>clients := Delete (clients b) key\<rparr>, out @ [Error (MalformedEntry key)]), Panic)
         | Conn c \<Rightarrow>
             (case Write c (sel key) data of
                (c', None) \<Rightarrow> ((b\<lparr>clients := Store (clients b) key (Conn c')\<rparr>, out), Return True)
              | (c', Some err) \<Rightarrow>
                  (let b = b\<lparr>clients := Store (clients b) key (Conn c')\<rparr>;
                       b = (if ShouldDisconnect c' then removeClient b (ID c') else b)
                   in ((b, out @ [Error err]), Return True)))))"

text \<open>
  \<open>Range\<close> of \<open>sync.Map\<close> walks the keys that are present when it starts and
  loads each value when it reaches the key: a key deleted in the meantime is
  skipped. It stops when the function returns false.
\<close>

fun Range ::
  "(defaultBroker \<times> 'a \<Rightarrow> string \<Rightarrow> item \<Rightarrow> (defaultBroker \<times> 'a) \<times> bool result)
     \<Rightarrow> string list \<Rightarrow> defaultBroker \<times> 'a \<Rightarrow> (defaultBroker \<times> 'a) \<times> unit result" where
  "Range f [] st = (st, Return ())"
| "Range f (k # ks) st =
     (case Load (clients (fst st)) k of
        None \<Rightarrow> Range f ks st
      | Some v \<Rightarrow>
          (case f st k v of
             (st', Panic) \<Rightarrow> (st', Panic)
           | (st', Return continue) \<Rightarrow>
               if continue then Range f ks st' else (st', Return ())))"

text \<open>\<open>strings.Join\<close>\<close>

fun Join :: "string list \<Rightarrow> string \<Rightarrow> string" where
  "Join [] sep = []"
| "Join [x] sep = x"
| "Join (x # y # ys) sep = x @ sep @ Join (y # ys) sep"

definition Broadcast ::
  "defaultBroker \<Rightarrow> (string \<Rightarrow> select_case) \<Rightarrow> payload \<Rightarrow> defaultBroker \<times> error option result" where
  "Broadcast b sel data =
     (case Range (Broadcast_func data sel) (map fst (clients b)) (b, []) of
        ((b', out), Panic) \<Rightarrow> (b', Panic)
      | ((b', out), Return u) \<Rightarrow>
          (b', Return (if length out > 0 then Some (Joined (Join out ''\<newline>'')) else None)))"

text \<open>
  How a handler invocation ends: it returned, it panicked, or (for the streaming
  handler) it is blocked in its \<open>select\<close> with no further event to take.
\<close>

datatype exit = Returned | Waiting | Panicked

definition EventHandler ::
  "defaultBroker \<Rightarrow> ResponseWriter \<Rightarrow> Request \<Rightarrow> (string \<Rightarrow> select_case)
     \<Rightarrow> defaultBroker \<times> ResponseWriter \<times> exit" where
  "EventHandler b w r sel =
     (case body r of
        Inl e \<Rightarrow> (b, httpError b w r (ReadError e) 500, Returned)
      | Inr data \<Rightarrow>
          (let i = Query_Get (query r) ''id'';
               (b', res) = (if i \<noteq> [] then (case BroadcastTo b sel i data of (b', err) \<Rightarrow> (b', Return err))
                            else Broadcast b sel data)
           in case res of
                Panic \<Rightarrow> (b', w, Panicked)
              | Return (Some err) \<Rightarrow> (b', httpError b' w r err 500, Returned)
              | Return None \<Rightarrow> (b', WriteHeader w 200, Returned)))"

text \<open>
  The loop of \<open>ClientHandler\<close>, entered with the handler blocked in its \<open>select\<close>.
  The events are what happens next, in order: a payload arrives on the client's
  channel, the timer ticks, or (concurrently, in \<open>listenForClose\<close>) the close
  notification arrives and the client is removed. After a payload or a tick the
  loop condition \<open>b.hasClient(id)\<close> is evaluated again; leaving the function runs the
  deferred \<open>removeClient\<close>. \<open>flusher\<close> says whether the variable \<open>flusher\<close> is non-nil:
  \<open>Flush\<close> on the nil interface panics.
\<close>

datatype loop_event = Received payload | TimerTick | CloseNotify

fun ClientHandler_loop ::
  "string \<Rightarrow> bool \<Rightarrow> defaultBroker \<Rightarrow> ResponseWriter \<Rightarrow> loop_event list
     \<Rightarrow> defaultBroker \<times> ResponseWriter \<times> exit" where
  "ClientHandler_loop i flusher b w [] = (b, w, Waiting)"
| "ClientHandler_loop i flusher b w (CloseNotify # evs) =
     ClientHandler_loop i flusher (listenForClose b i) w evs"
| "ClientHandler_loop i flusher b w (TimerTick # evs) =
     (if hasClient b i then ClientHandler_loop i flusher b w evs
      else (removeClient b i, w, Returned))"
| "ClientHandler_loop i flusher b w (Received data # evs) =
     (let w = Fprintf_data w data in
      if \<not> flusher then (removeClient b i, w, Panicked)
      else
        (let w = Flush w in
         if hasClient b i then ClientHandler_loop i flusher b w evs
         else (removeClient b i, w, Returned)))"

text \<open>
  \<open>ClientHandler\<close>. The second short variable declaration assigns to the \<open>ok\<close> of
  the first. \<open>xid\<close> is the identifier that \<open>client.New\<close> generates when the request
  has none.
\<close>

definition ClientHandler ::
  "defaultBroker \<Rightarrow> ResponseWriter \<Rightarrow> Request \<Rightarrow> string \<Rightarrow> loop_event list
     \<Rightarrow> defaultBroker \<times> ResponseWriter \<times> exit" where
  "ClientHandler b w r xid evs =
     (let (flusher, ok) = (is_Flusher w, is_Flusher w);
          (notify, ok) = (is_CloseNotifier w, is_CloseNotifier w)
      in if \<not> ok then (b, httpError b w r StreamingUnsupported 500, Returned)
         else
           (let w = Header_Set w ''Content-Type'' ''text/event-stream'';
                w = Header_Set w ''Cache-Control'' ''no-cache'';
                w = Header_Set w ''Connection'' ''keep-alive'';
                w = Header_Set w ''Access-Control-Allow-Origin'' ''*'';
                client = client_New (timeout_b b) (tolerance_b b) (Query_Get (query r) ''id'') xid;
                i = ID client
            in if hasClient b i then (b, httpError b w r (DuplicateClient i) 500, Returned)
               else
                 (let b = addClient b client in
                  if hasClient b i then ClientHandler_loop i flusher b w evs
                  else (removeClient b i, w, Returned))))"

text \<open>
  The states of a broker that its operations can produce, each operation taken
  as one step: creation, a streaming handler run on some events, a handler that
  was blocked taking further events, the two broadcasts, the event handler, and
  a close notification.
\<close>

inductive reachable :: "defaultBroker \<Rightarrow> bool" where
  created: "reachable (broker_New tmo tol eh)"
| connected: "reachable b \<Longrightarrow> ClientHandler b w r xid evs = (b', w', e) \<Longrightarrow> reachable b'"
| resumed: "reachable b \<Longrightarrow> ClientHandler_loop i fl b w evs = (b', w', e) \<Longrightarrow> reachable b'"
| broadcast: "reachable b \<Longrightarrow> Broadcast b sel data = (b', res) \<Longrightarrow> reachable b'"
| unicast: "reachable b \<Longrightarrow> BroadcastTo b sel i data = (b', err) \<Longrightarrow> reachable b'"
| submitted: "reachable b \<Longrightarrow> EventHandler b w r sel = (b', w', e) \<Longrightarrow> reachable b'"
| closed: "reachable b \<Longrightarrow> reachable (listenForClose b i)"

text \<open>
  The registry invariant: no key twice, and every value is a client stored under
  its own identifier.
\<close>

definition keyed_by_ID :: "sync_Map \<Rightarrow> bool" where
  "keyed_by_ID m =
     (distinct (map fst m) \<and> list_all (\<lambda>(k, v). case v of Conn c \<Rightarrow> ID c = k | Other \<Rightarrow> False) m)"

text \<open>
  What \<open>Write\<close> returns for each entry of a registry, for the entries where it
  returns an error, in the order of the registry.
\<close>

definition write_errors :: "payload \<Rightarrow> (string \<Rightarrow> select_case) \<Rightarrow> sync_Map \<Rightarrow> error list" where
  "write_errors data sel m =
     List.map_filter (\<lambda>(k, v). case v of Conn c \<Rightarrow> snd (Write c (sel k) data) | Other \<Rightarrow> None) m"

text \<open>
  The registry that a \<open>Broadcast\<close> leaves behind, entry by entry: a client is
  kept, as \<open>Write\<close> changed it, unless its \<open>Write\<close> failed and it is then to be
  disconnected.
\<close>

definition survivors :: "payload \<Rightarrow> (string \<Rightarrow> select_case) \<Rightarrow> sync_Map \<Rightarrow> sync_Map" where
  "survivors data sel m =
     List.map_filter (\<lambda>(k, v). case v of
         Conn c \<Rightarrow> (case Write c (sel k) data of
                      (c', None) \<Rightarrow> Some (k, Conn c')
                    | (c', Some e) \<Rightarrow> if ShouldDisconnect c' then None else Some (k, Conn c'))
       | Other \<Rightarrow> None) m"

text \<open>
  The four response headers that \<open>ClientHandler\<close> sets, and what the loop writes
  to the response for one event: for a payload, one frame and one flush.
\<close>

definition stream_headers :: "ResponseWriter \<Rightarrow> ResponseWriter" where
  "stream_headers w =
     Header_Set (Header_Set (Header_Set (Header_Set w
       ''Content-Type'' ''text/event-stream'')
       ''Cache-Control'' ''no-cache'')
       ''Connection'' ''keep-alive'')
       ''Access-Control-Allow-Origin'' ''*''"

fun frames :: "loop_event \<Rightarrow> wire_op list" where
  "frames (Received data) = [Body (''data: '' @ data @ ''\<newline>\<newline>''), Flushed]"
| "frames TimerTick = []"
| "frames CloseNotify = []"

text \<open>
  The events that the loop of \<open>ClientHandler\<close> takes when it starts with its client
  registered: every event up to the first close notification, the close
  notifications that follow it, and one more event, after which the loop finds the
  client gone and the handler returns. \<open>after_close\<close> is what follows those close
  notifications.
\<close>

definition after_close :: "loop_event list \<Rightarrow> loop_event list" where
  "after_close evs =
     dropWhile (\<lambda>e. e = CloseNotify) (dropWhile (\<lambda>e. e \<noteq> CloseNotify) evs)"

definition taken :: "loop_event list \<Rightarrow> loop_event list" where
  "taken evs =
     takeWhile (\<lambda>e. e \<noteq> CloseNotify) evs
     @ takeWhile (\<lambda>e. e = CloseNotify) (dropWhile (\<lambda>e. e \<noteq> CloseNotify) evs)
     @ take 1 (after_close evs)"

section \<open>Properties of a client\<close>

lemma Write_fields:
  "id_c (fst (Write c s data)) = id_c c"
  "tolerance (fst (Write c s data)) = tolerance c"
  "timeout (fst (Write c s data)) = timeout c"
  by (cases s; simp)+

lemma writes_append: "writes c (h @ h') = writes (writes c h) h'"
  by (induction h arbitrary: c) auto

lemma writes_snoc: "writes c (h @ [(s, d)]) = fst (Write (writes c h) s d)"
  by (simp add: writes_append)

lemma streak_snoc:
  "streak (h @ [(Sent, d)]) = 0" "streak (h @ [(Ticked, d)]) = Suc (streak h)"
  by (simp_all add: streak_def)

lemma failures_writes:
  "failures c = 0 \<Longrightarrow> failures (writes c h) = of_nat (streak h)"
proof (induction h rule: rev_induct)
  case Nil
  then show ?case by (simp add: streak_def)
next
  case (snoc x h)
  obtain s d where x: "x = (s, d)" by (cases x)
  show ?case using snoc by (cases s) (simp_all add: x writes_snoc streak_snoc)
qed

lemma tolerance_writes: "tolerance (writes c h) = tolerance c"
  by (induction h arbitrary: c) (auto simp: Write_fields)

lemma sint_of_nat_small: "k < 2 ^ 63 \<Longrightarrow> sint (of_nat k :: 64 word) = int k"
proof -
  assume k: "k < 2 ^ 63"
  have "(of_nat k :: 64 word) = word_of_int (int k)" by simp
  then have "sint (of_nat k :: 64 word) = signed_take_bit 63 (int k)"
    by (simp only: sint_sbintrunc') simp
  also have "\<dots> = int k"
    using k by (simp add: signed_take_bit_int_eq_self_iff)
  finally show ?thesis .
qed

lemma sint_bound: "sint (w :: 64 word) < 2 ^ 63"
  using sint_lt[of w] by simp

text \<open>
  C4, as amended. For every timeout and every tolerance greater than zero:
  \<open>ShouldDisconnect\<close> is false on a client right after its creation; it is false
  after a successful \<open>Write\<close>, whatever went before; and after any history of
  \<open>Write\<close> calls since creation that ends in \<open>k\<close> timed-out calls in a row (\<open>k\<close> below
  \<open>2 ^ 63\<close>, where the 64-bit counter has not wrapped) it is true exactly when
  \<open>k\<close> is at least \<open>tolerance\<close>: false before the \<open>tolerance\<close>-th consecutive timeout,
  true at it and at every further one.
\<close>

theorem ShouldDisconnect_after_writes:
  assumes "0 < sint tol"
  shows "\<not> ShouldDisconnect (client_New tmo tol i xid)
       \<and> \<not> ShouldDisconnect (fst (Write (writes (client_New tmo tol i xid) h) Sent data))
       \<and> (streak h < 2 ^ 63 \<longrightarrow>
            (ShouldDisconnect (writes (client_New tmo tol i xid) h) \<longleftrightarrow> sint tol \<le> int (streak h)))"
proof -
  let ?c = "client_New tmo tol i xid"
  have f0: "failures ?c = 0" and t0: "tolerance ?c = tol"
    by (simp_all add: client_New_def Let_def)
  have new: "\<not> ShouldDisconnect ?c"
    using assms by (simp add: ShouldDisconnect_def f0 t0)
  have sent: "\<not> ShouldDisconnect (fst (Write (writes ?c h) Sent data))"
    using assms by (simp add: ShouldDisconnect_def tolerance_writes t0)
  have "ShouldDisconnect (writes ?c h) \<longleftrightarrow> sint tol \<le> int (streak h)" if small: "streak h < 2 ^ 63"
  proof -
    have "sint (failures (writes ?c h)) = int (streak h)"
      by (simp add: failures_writes [OF f0] sint_of_nat_small [OF small])
    then show ?thesis by (simp add: ShouldDisconnect_def tolerance_writes t0)
  qed
  with new sent show ?thesis by blast
qed

theorem ShouldDisconnect_after_writes_witness:
  "(0::int) < sint (3 :: 64 word)
   \<and> \<not> ShouldDisconnect (client_New 1000000000 3 ''test'' ''x'')
   \<and> \<not> ShouldDisconnect (writes (client_New 1000000000 3 ''test'' ''x'')
        [(Ticked, ''a''), (Ticked, ''b''), (Sent, ''c'')])
   \<and> \<not> ShouldDisconnect (writes (client_New 1000000000 3 ''test'' ''x'')
        [(Sent, ''a''), (Ticked, ''b''), (Ticked, ''c'')])
   \<and> ShouldDisconnect (writes (client_New 1000000000 3 ''test'' ''x'')
        [(Sent, ''a''), (Ticked, ''b''), (Ticked, ''c''), (Ticked, ''d'')])
   \<and> ShouldDisconnect (writes (client_New 1000000000 3 ''test'' ''x'')
        [(Ticked, ''a''), (Ticked, ''b''), (Ticked, ''c''), (Ticked, ''d''), (Ticked, ''e'')])"
proof -
  have pos: "(0::int) < sint (3 :: 64 word)" by simp
  note w = ShouldDisconnect_after_writes [OF pos, of 1000000000 "''test''" "''x''"]
  let ?h1 = "[(Ticked, ''a''), (Ticked, ''b''), (Sent, ''c'')]"
  let ?h2 = "[(Sent, ''a''), (Ticked, ''b''), (Ticked, ''c'')]"
  let ?h3 = "[(Sent, ''a''), (Ticked, ''b''), (Ticked, ''c''), (Ticked, ''d'')]"
  let ?h4 = "[(Ticked, ''a''), (Ticked, ''b''), (Ticked, ''c''), (Ticked, ''d''), (Ticked, ''e'')]"
  have s: "streak ?h1 = 0" "streak ?h2 = 2" "streak ?h3 = 3" "streak ?h4 = 5"
    by (simp_all add: streak_def)
  from w [of "[]" "[]"] have a: "\<not> ShouldDisconnect (client_New 1000000000 3 ''test'' ''x'')"
    by blast
  from w [of ?h1 "[]", THEN conjunct2, THEN conjunct2]
  have b: "\<not> ShouldDisconnect (writes (client_New 1000000000 3 ''test'' ''x'') ?h1)"
    by (simp add: s)
  from w [of ?h2 "[]", THEN conjunct2, THEN conjunct2]
  have c: "\<not> ShouldDisconnect (writes (client_New 1000000000 3 ''test'' ''x'') ?h2)"
    by (simp add: s)
  from w [of ?h3 "[]", THEN conjunct2, THEN conjunct2]
  have d: "ShouldDisconnect (writes (client_New 1000000000 3 ''test'' ''x'') ?h3)"
    by (simp add: s)
  from w [of ?h4 "[]", THEN conjunct2, THEN conjunct2]
  have e: "ShouldDisconnect (writes (client_New 1000000000 3 ''test'' ''x'') ?h4)"
    by (simp add: s)
  from pos a b c d e show ?thesis by blast
qed

text \<open>
  C4 as stated fails for a tolerance of zero: a client created with timeout one
  second, tolerance 0 and identifier \<open>test\<close> is to be disconnected at once, before
  any \<open>Write\<close>.
\<close>

theorem ShouldDisconnect_zero_tolerance_counterexample:
  "ShouldDisconnect (client_New 1000000000 0 ''test'' ''x'')"
  by (simp add: ShouldDisconnect_def client_New_def)




section \<open>Properties of the registry and of Broadcast\<close>

lemma Load_mid: "k \<notin> fst ` set pre \<Longrightarrow> Load (pre @ (k, v) # rest) k = Some v"
  by (induction pre) (auto simp: Load_def)

lemma Store_mid: "k \<notin> fst ` set pre \<Longrightarrow> Store (pre @ (k, v) # rest) k v' = pre @ (k, v') # rest"
  by (induction pre) (auto simp: Store_def)

lemma Delete_mid:
  "k \<notin> fst ` set pre \<Longrightarrow> k \<notin> fst ` set rest \<Longrightarrow> Delete (pre @ (k, v) # rest) k = pre @ rest"
  by (induction pre) (auto simp: Delete_def)

lemma Load_Delete_same: "Load (Delete m k) k = None"
  by (simp add: Load_def Delete_def delete_conv')


lemma ID_Write: "ID (fst (Write c s data)) = ID c"
  by (simp add: ID_def Write_fields)

lemma survivors_Cons:
  "survivors data sel ((k, Conn c) # m) =
     (if snd (Write c (sel k) data) \<noteq> None \<and> ShouldDisconnect (fst (Write c (sel k) data))
      then survivors data sel m
      else (k, Conn (fst (Write c (sel k) data))) # survivors data sel m)"
  by (cases "Write c (sel k) data") (auto simp: survivors_def split: option.splits)

lemma write_errors_Cons:
  "write_errors data sel ((k, Conn c) # m) =
     (case snd (Write c (sel k) data) of None \<Rightarrow> write_errors data sel m
      | Some e \<Rightarrow> e # write_errors data sel m)"
  by (simp add: write_errors_def split: option.splits)

lemma Range_Broadcast_func:
  assumes "distinct (map fst (pre @ rest))"
    and "list_all (\<lambda>(k, v). case v of Conn c \<Rightarrow> ID c = k | Other \<Rightarrow> False) rest"
  shows "Range (Broadcast_func data sel) (map fst rest) (b\<lparr>clients := pre @ rest\<rparr>, out)
         = ((b\<lparr>clients := pre @ survivors data sel rest\<rparr>,
             out @ map Error (write_errors data sel rest)), Return ())"
  using assms
proof (induction rest arbitrary: pre out)
  case Nil
  show ?case by (simp add: survivors_def write_errors_def)
next
  case (Cons x rest)
  from Cons.prems(2) obtain k c where x: "x = (k, Conn c)" and idc: "ID c = k"
    by (cases x; cases "snd x") (auto)
  from Cons.prems(1) have kpre: "k \<notin> fst ` set pre" and krest: "k \<notin> fst ` set rest"
    by (auto simp: x)
  have rest: "list_all (\<lambda>(k, v). case v of Conn c \<Rightarrow> ID c = k | Other \<Rightarrow> False) rest"
    using Cons.prems(2) by simp
  obtain c' e where W: "Write c (sel k) data = (c', e)" by (cases "Write c (sel k) data")
  have idc': "ID c' = k" using ID_Write [of c "sel k" data] W idc by simp
  have d1: "distinct (map fst ((pre @ [(k, Conn c')]) @ rest))"
    using Cons.prems(1) by (simp add: x)
  have d2: "distinct (map fst (pre @ rest))"
    using Cons.prems(1) by (simp add: x)
  show ?case
  proof (cases e)
    case None
    show ?thesis
      using Cons.IH [OF d1 rest, of out]
      by (simp add: x Load_mid [OF kpre] Broadcast_func_def W None Store_mid [OF kpre]
          survivors_Cons write_errors_Cons)
  next
    case (Some err)
    show ?thesis
    proof (cases "ShouldDisconnect c'")
      case True
      show ?thesis
        using Cons.IH [OF d2 rest, of "out @ [Error err]"]
        by (simp add: x Load_mid [OF kpre] Broadcast_func_def W Some True Store_mid [OF kpre]
            removeClient_def idc' Delete_mid [OF kpre krest] survivors_Cons write_errors_Cons)
    next
      case False
      show ?thesis
        using Cons.IH [OF d1 rest, of "out @ [Error err]"]
        by (simp add: x Load_mid [OF kpre] Broadcast_func_def W Some False Store_mid [OF kpre]
            survivors_Cons write_errors_Cons)
    qed
  qed
qed

lemma fst_survivors: "fst ` set (survivors data sel m) \<subseteq> fst ` set m"
proof (induction m)
  case Nil
  show ?case by (simp add: survivors_def)
next
  case (Cons x m)
  obtain k v where x: "x = (k, v)" by (cases x)
  show ?case
  proof (cases v)
    case (Conn c)
    with Cons show ?thesis by (auto simp: x survivors_Cons)
  next
    case Other
    with Cons show ?thesis by (auto simp: x survivors_def)
  qed
qed

lemma keyed_by_ID_Cons:
  "keyed_by_ID ((k, v) # m) \<longleftrightarrow>
     k \<notin> fst ` set m \<and> (\<exists>c. v = Conn c \<and> ID c = k) \<and> keyed_by_ID m"
  by (cases v) (auto simp: keyed_by_ID_def)

lemma keyed_by_ID_Nil: "keyed_by_ID []"
  by (simp add: keyed_by_ID_def)

lemma keyed_by_ID_Load:
  "keyed_by_ID m \<Longrightarrow> Load m k = Some v \<Longrightarrow> \<exists>c. v = Conn c \<and> ID c = k"
proof (induction m)
  case Nil
  then show ?case by (simp add: Load_def)
next
  case (Cons x m)
  obtain k' v' where x: "x = (k', v')" by (cases x)
  from Cons show ?case
    by (auto simp: x keyed_by_ID_Cons Load_def split: if_splits)
qed

lemma fst_Store: "fst ` set (Store m k v) = insert k (fst ` set m)"
  by (induction m) (auto simp: Store_def)

lemma fst_Delete: "fst ` set (Delete m k) = fst ` set m - {k}"
  by (induction m) (auto simp: Delete_def)

lemma keyed_by_ID_Store:
  "keyed_by_ID m \<Longrightarrow> ID c = k \<Longrightarrow> keyed_by_ID (Store m k (Conn c))"
proof (induction m)
  case Nil
  then show ?case by (simp add: Store_def keyed_by_ID_def)
next
  case (Cons x m)
  obtain k' v' where x: "x = (k', v')" by (cases x)
  from Cons have m: "keyed_by_ID (Store m k (Conn c))"
    by (simp add: x keyed_by_ID_Cons)
  show ?case
  proof (cases "k' = k")
    case True
    with Cons.prems show ?thesis by (simp add: x Store_def keyed_by_ID_Cons)
  next
    case False
    have "Store (x # m) k (Conn c) = (k', v') # Store m k (Conn c)"
      using False by (simp add: x Store_def)
    with Cons.prems m False show ?thesis
      by (simp add: x keyed_by_ID_Cons fst_Store)
  qed
qed

lemma keyed_by_ID_Delete: "keyed_by_ID m \<Longrightarrow> keyed_by_ID (Delete m k)"
proof (induction m)
  case Nil
  then show ?case by (simp add: Delete_def)
next
  case (Cons x m)
  obtain k' v' where x: "x = (k', v')" by (cases x)
  have "Delete (x # m) k = (if k' = k then Delete m k else (k', v') # Delete m k)"
    by (simp add: x Delete_def)
  with Cons show ?case
    by (auto simp: x keyed_by_ID_Cons fst_Delete)
qed

lemma keyed_by_ID_survivors: "keyed_by_ID m \<Longrightarrow> keyed_by_ID (survivors data sel m)"
proof (induction m)
  case Nil
  then show ?case by (simp add: survivors_def)
next
  case (Cons x m)
  obtain k v where x: "x = (k, v)" by (cases x)
  from Cons.prems obtain c where v: "v = Conn c" and idc: "ID c = k"
    and k: "k \<notin> fst ` set m" and m: "keyed_by_ID m"
    by (auto simp: x keyed_by_ID_Cons)
  have "k \<notin> fst ` set (survivors data sel m)"
    using k fst_survivors [of data sel m] by blast
  with Cons.IH [OF m] idc show ?case
    by (simp add: x v survivors_Cons keyed_by_ID_Cons ID_Write)
qed

lemma Load_survivors:
  assumes "keyed_by_ID m" and "Load m k = Some (Conn c)"
  shows "Load (survivors data sel m) k =
     (if snd (Write c (sel k) data) \<noteq> None \<and> ShouldDisconnect (fst (Write c (sel k) data))
      then None else Some (Conn (fst (Write c (sel k) data))))"
  using assms
proof (induction m)
  case Nil
  then show ?case by (simp add: Load_def)
next
  case (Cons x m)
  obtain k' v' where x: "x = (k', v')" by (cases x)
  from Cons.prems(1) obtain c' where v': "v' = Conn c'"
    and k': "k' \<notin> fst ` set m" and m: "keyed_by_ID m"
    by (auto simp: x keyed_by_ID_Cons)
  have notin: "k' \<notin> fst ` set (survivors data sel m)"
    using k' fst_survivors [of data sel m] by blast
  show ?case
  proof (cases "k' = k")
    case True
    with Cons.prems(2) have "c' = c" by (simp add: x v' Load_def)
    with True notin show ?thesis
      by (auto simp: x v' survivors_Cons Load_def map_of_eq_None_iff)
  next
    case False
    with Cons.prems(2) have "Load m k = Some (Conn c)" by (simp add: x Load_def)
    from Cons.IH [OF m this] False show ?thesis
      by (auto simp: x v' survivors_Cons Load_def)
  qed
qed

lemma Range_Broadcast:
  assumes "keyed_by_ID (clients b)"
  shows "Range (Broadcast_func data sel) (map fst (clients b)) (b, [])
         = ((b\<lparr>clients := survivors data sel (clients b)\<rparr>,
             map Error (write_errors data sel (clients b))), Return ())"
  using Range_Broadcast_func [of "[]" "clients b" data sel b "[]"] assms
  by (simp add: keyed_by_ID_def)

text \<open>
  C1. For every registry in which each entry is a client stored under its own
  identifier (the registries a broker can reach, see C10) and every payload,
  \<open>Broadcast\<close> returns, and it has called \<open>Write\<close> on every client: afterwards each
  entry holds the client as its \<open>Write\<close> left it, or is gone when that \<open>Write\<close> failed
  and the client was then to be disconnected. No failure stops the iteration. The
  error returned is nil when no \<open>Write\<close> failed; otherwise its message is the
  messages of the failed calls, in the order of the iteration, joined by newlines.
\<close>

theorem Broadcast_attempts_every_client:
  assumes "keyed_by_ID (clients b)"
  shows "snd (Broadcast b sel data) =
           Return (if write_errors data sel (clients b) = [] then None
                   else Some (Joined (Join (map Error (write_errors data sel (clients b))) ''\<newline>'')))
       \<and> (\<forall>k c. Load (clients b) k = Some (Conn c) \<longrightarrow>
            Load (clients (fst (Broadcast b sel data))) k =
              (if snd (Write c (sel k) data) \<noteq> None \<and> ShouldDisconnect (fst (Write c (sel k) data))
               then None else Some (Conn (fst (Write c (sel k) data)))))"
  using assms
  by (simp add: Broadcast_def Range_Broadcast Load_survivors)

theorem Broadcast_attempts_every_client_witness:
  "keyed_by_ID (clients (broker_New 1000000000 3 None
      \<lparr>clients := [(''a'', Conn (client_New 1000000000 3 ''a'' [])),
                   (''b'', Conn ((client_New 1000000000 3 ''b'' [])\<lparr>failures := 2\<rparr>)),
                   (''c'', Conn (client_New 1000000000 3 ''c'' []))]\<rparr>))
   \<and> snd (Broadcast (broker_New 1000000000 3 None
      \<lparr>clients := [(''a'', Conn (client_New 1000000000 3 ''a'' [])),
                   (''b'', Conn ((client_New 1000000000 3 ''b'' [])\<lparr>failures := 2\<rparr>)),
                   (''c'', Conn (client_New 1000000000 3 ''c'' []))]\<rparr>)
        (\<lambda>k. if k = ''a'' then Sent else Ticked) ''hello'')
     = Return (Some (Joined
        ''failed to write to client b, timeout exceeded\<newline>failed to write to client c, timeout exceeded''))
   \<and> Load (clients (fst (Broadcast (broker_New 1000000000 3 None
      \<lparr>clients := [(''a'', Conn (client_New 1000000000 3 ''a'' [])),
                   (''b'', Conn ((client_New 1000000000 3 ''b'' [])\<lparr>failures := 2\<rparr>)),
                   (''c'', Conn (client_New 1000000000 3 ''c'' []))]\<rparr>)
        (\<lambda>k. if k = ''a'' then Sent else Ticked) ''hello''))) ''a''
     = Some (Conn ((client_New 1000000000 3 ''a'' [])\<lparr>notify := [''hello'']\<rparr>))
   \<and> Load (clients (fst (Broadcast (broker_New 1000000000 3 None
      \<lparr>clients := [(''a'', Conn (client_New 1000000000 3 ''a'' [])),
                   (''b'', Conn ((client_New 1000000000 3 ''b'' [])\<lparr>failures := 2\<rparr>)),
                   (''c'', Conn (client_New 1000000000 3 ''c'' []))]\<rparr>)
        (\<lambda>k. if k = ''a'' then Sent else Ticked) ''hello''))) ''b''
     = None"
proof -
  let ?a = "client_New 1000000000 3 ''a'' []"
  let ?b = "(client_New 1000000000 3 ''b'' [])\<lparr>failures := 2\<rparr>"
  let ?B = "broker_New 1000000000 3 None
      \<lparr>clients := [(''a'', Conn ?a), (''b'', Conn ?b),
                   (''c'', Conn (client_New 1000000000 3 ''c'' []))]\<rparr>"
  let ?sel = "\<lambda>k. if k = ''a'' then Sent else Ticked"
  have inv: "keyed_by_ID (clients ?B)"
    by (simp add: keyed_by_ID_def broker_New_def client_New_def ID_def)
  note all = Broadcast_attempts_every_client [OF inv, of ?sel "''hello''"]
  have err: "snd (Broadcast ?B ?sel ''hello'') = Return (Some (Joined
        ''failed to write to client b, timeout exceeded\<newline>failed to write to client c, timeout exceeded''))"
    using all by (simp add: write_errors_def broker_New_def client_New_def)
  have la: "Load (clients ?B) ''a'' = Some (Conn ?a)"
    and lb: "Load (clients ?B) ''b'' = Some (Conn ?b)"
    by (simp_all add: Load_def broker_New_def)
  have a: "Load (clients (fst (Broadcast ?B ?sel ''hello''))) ''a''
      = Some (Conn (?a\<lparr>notify := [''hello'']\<rparr>))"
    using all [THEN conjunct2, rule_format, OF la] by (simp add: client_New_def)
  have b: "Load (clients (fst (Broadcast ?B ?sel ''hello''))) ''b'' = None"
    using all [THEN conjunct2, rule_format, OF lb]
    by (simp add: client_New_def ShouldDisconnect_def)
  from inv err a b show ?thesis by blast
qed


section \<open>Properties of BroadcastTo\<close>

lemma hasClient_iff: "hasClient b i \<longleftrightarrow> Load (clients b) i \<noteq> None"
  by (simp add: hasClient_def split: option.splits)

lemma fst_Store_present:
  "Load m k = Some v \<Longrightarrow> map fst (Store m k v') = map fst m"
  by (auto simp: Store_def Load_def update_keys dest: map_of_SomeD intro: rev_image_eqI)

lemma Load_Store: "Load (Store m k v) j = (if j = k then Some v else Load m j)"
  by (simp add: Load_def Store_def update_conv')

text \<open>
  C6. \<open>BroadcastTo\<close> with an identifier that is not in the registry returns the
  error for an unknown client and leaves the broker as it was. With an identifier
  whose entry is a client it returns what \<open>Write\<close> on that client returns; the
  registry keeps the same keys in the same order (nothing is evicted, whatever
  \<open>ShouldDisconnect\<close> says afterwards), the entry holds the client as \<open>Write\<close> left
  it, and no other entry changes.
\<close>

theorem BroadcastTo_unknown_or_verbatim:
  "(Load (clients b) i = None \<longrightarrow> BroadcastTo b sel i data = (b, Some (UnknownClient i)))
   \<and> (\<forall>c. Load (clients b) i = Some (Conn c) \<longrightarrow>
         snd (BroadcastTo b sel i data) = snd (Write c (sel i) data)
       \<and> map fst (clients (fst (BroadcastTo b sel i data))) = map fst (clients b)
       \<and> Load (clients (fst (BroadcastTo b sel i data))) i = Some (Conn (fst (Write c (sel i) data)))
       \<and> (\<forall>j. j \<noteq> i \<longrightarrow> Load (clients (fst (BroadcastTo b sel i data))) j = Load (clients b) j))"
  by (auto simp: BroadcastTo_def fst_Store_present Load_Store split: prod.splits)

theorem BroadcastTo_unknown_or_verbatim_witness:
  "BroadcastTo (broker_New 1000000000 1 None
       \<lparr>clients := [(''1234'', Conn (client_New 1000000000 1 ''1234'' []))]\<rparr>)
     (\<lambda>k. Ticked) ''9999'' ''hello''
   = (broker_New 1000000000 1 None
       \<lparr>clients := [(''1234'', Conn (client_New 1000000000 1 ''1234'' []))]\<rparr>,
      Some (UnknownClient ''9999''))
   \<and> snd (BroadcastTo (broker_New 1000000000 1 None
       \<lparr>clients := [(''1234'', Conn (client_New 1000000000 1 ''1234'' []))]\<rparr>)
     (\<lambda>k. Ticked) ''1234'' ''hello'') = Some (DeliveryTimeout ''1234'')
   \<and> ShouldDisconnect (fst (Write (client_New 1000000000 1 ''1234'' []) Ticked ''hello''))
   \<and> map fst (clients (fst (BroadcastTo (broker_New 1000000000 1 None
       \<lparr>clients := [(''1234'', Conn (client_New 1000000000 1 ''1234'' []))]\<rparr>)
     (\<lambda>k. Ticked) ''1234'' ''hello''))) = [''1234'']"
proof -
  let ?c = "client_New 1000000000 1 ''1234'' []"
  let ?B = "broker_New 1000000000 1 None\<lparr>clients := [(''1234'', Conn ?c)]\<rparr>"
  have absent: "Load (clients ?B) ''9999'' = None"
    and present: "Load (clients ?B) ''1234'' = Some (Conn ?c)"
    by (simp_all add: Load_def broker_New_def)
  note unknown = BroadcastTo_unknown_or_verbatim
    [of ?B "''9999''" "\<lambda>k. Ticked" "''hello''", THEN conjunct1, rule_format, OF absent]
  note known = BroadcastTo_unknown_or_verbatim
    [of ?B "''1234''" "\<lambda>k. Ticked" "''hello''", THEN conjunct2, rule_format, OF present]
  have sd: "ShouldDisconnect (fst (Write ?c Ticked ''hello''))"
    by (simp add: ShouldDisconnect_def client_New_def)
  from known have e: "snd (BroadcastTo ?B (\<lambda>k. Ticked) ''1234'' ''hello'') = Some (DeliveryTimeout ''1234'')"
    by (simp add: client_New_def)
  from known have k: "map fst (clients (fst (BroadcastTo ?B (\<lambda>k. Ticked) ''1234'' ''hello''))) = [''1234'']"
    by (simp add: broker_New_def)
  from unknown e sd k show ?thesis by blast
qed

section \<open>Properties of ClientHandler\<close>

lemma wire_Header_Set: "wire (Header_Set w k v) = wire w"
  by (simp add: Header_Set_def)

lemma not_hasClient_listenForClose: "\<not> hasClient (listenForClose b i) i"
  by (simp add: hasClient_iff listenForClose_def removeClient_def Load_Delete_same)

lemma ClientHandler_loop_unregistered:
  "\<not> hasClient b i \<Longrightarrow>
     fst (snd (ClientHandler_loop i True b w evs))
       = w\<lparr>wire := wire w @ concat (map frames (take 1 (dropWhile (\<lambda>e. e = CloseNotify) evs)))\<rparr>
   \<and> snd (snd (ClientHandler_loop i True b w evs))
       = (if dropWhile (\<lambda>e. e = CloseNotify) evs = [] then Waiting else Returned)"
proof (induction evs arbitrary: b)
  case Nil
  show ?case by simp
next
  case (Cons ev evs)
  show ?case
  proof (cases ev)
    case (Received data)
    with Cons.prems show ?thesis by (simp add: Let_def Flush_def Fprintf_data_def)
  next
    case TimerTick
    with Cons.prems show ?thesis by simp
  next
    case CloseNotify
    with Cons.IH [OF not_hasClient_listenForClose [of b i]] show ?thesis by simp
  qed
qed

lemma ClientHandler_loop_registered:
  "hasClient b i \<Longrightarrow>
     wire (fst (snd (ClientHandler_loop i True b w evs))) = wire w @ concat (map frames (taken evs))
   \<and> snd (snd (ClientHandler_loop i True b w evs))
       = (if after_close evs = [] then Waiting else Returned)"
proof (induction evs arbitrary: w)
  case Nil
  show ?case by (simp add: taken_def after_close_def)
next
  case (Cons ev evs)
  show ?case
  proof (cases ev)
    case (Received data)
    with Cons.prems Cons.IH [OF Cons.prems, of "Flush (Fprintf_data w data)"] show ?thesis
      by (simp add: Let_def taken_def after_close_def Flush_def Fprintf_data_def)
  next
    case TimerTick
    with Cons.prems Cons.IH [OF Cons.prems, of w] show ?thesis
      by (simp add: taken_def after_close_def)
  next
    case CloseNotify
    have frames_close: "concat (map frames (takeWhile (\<lambda>e. e = CloseNotify) xs)) = []" for xs
      by (induction xs) auto
    from ClientHandler_loop_unregistered [OF not_hasClient_listenForClose [of b i], of w evs]
    show ?thesis
      by (simp add: CloseNotify taken_def after_close_def frames_close)
  qed
qed

lemma ClientHandler_unsupported:
  "\<not> is_CloseNotifier w \<Longrightarrow>
     ClientHandler b w r xid evs = (b, httpError b w r StreamingUnsupported 500, Returned)"
  by (simp add: ClientHandler_def)

lemma hasClient_addClient: "hasClient (addClient b c) (ID c)"
  by (simp add: hasClient_iff addClient_def Load_Store)

lemma ClientHandler_accepts:
  assumes "is_CloseNotifier w"
    and "\<not> hasClient b (ID (client_New (timeout_b b) (tolerance_b b) (Query_Get (query r) ''id'') xid))"
  shows "ClientHandler b w r xid evs =
     ClientHandler_loop (ID (client_New (timeout_b b) (tolerance_b b) (Query_Get (query r) ''id'') xid))
       (is_Flusher w)
       (addClient b (client_New (timeout_b b) (tolerance_b b) (Query_Get (query r) ''id'') xid))
       (stream_headers w) evs"
  using assms by (simp add: ClientHandler_def Let_def hasClient_addClient stream_headers_def)

text \<open>
  C3. The code does not do what the claim says for a response writer that is a
  \<open>CloseNotifier\<close> but not a \<open>Flusher\<close>: the second type assertion overwrites \<open>ok\<close>, so
  the handler does not fail. With an empty registry and the request \<open>?id=1234\<close> it
  registers the client \<open>1234\<close>, reports no error and waits in its loop; the first
  payload it receives then makes it panic in \<open>flusher.Flush()\<close>. (A writer that is
  not a \<open>CloseNotifier\<close> is rejected as the claim says: lemma
  \<open>ClientHandler_unsupported\<close>.)
\<close>

theorem ClientHandler_without_Flusher_is_accepted:
  "ClientHandler (broker_New 1000000000 3 None)
     \<lparr>is_Flusher = False, is_CloseNotifier = True, header = [], status = None, wire = []\<rparr>
     \<lparr>body = Inr [], query = [(''id'', ''1234'')]\<rparr> ''x'' []
   = (broker_New 1000000000 3 None
        \<lparr>clients := [(''1234'', Conn (client_New 1000000000 3 ''1234'' ''x''))]\<rparr>,
      stream_headers
        \<lparr>is_Flusher = False, is_CloseNotifier = True, header = [], status = None, wire = []\<rparr>,
      Waiting)
   \<and> snd (snd (ClientHandler (broker_New 1000000000 3 None)
     \<lparr>is_Flusher = False, is_CloseNotifier = True, header = [], status = None, wire = []\<rparr>
     \<lparr>body = Inr [], query = [(''id'', ''1234'')]\<rparr> ''x'' [Received ''hello''])) = Panicked"
  by (simp add: ClientHandler_def Let_def Query_Get_def broker_New_def client_New_def ID_def
      hasClient_def Load_def addClient_def Store_def stream_headers_def)

text \<open>
  C7. When the response writer passes the capability check and the request names
  an identifier that is in the registry, \<open>ClientHandler\<close> returns at once, whatever
  events would follow: the broker, and so the registry and the client registered
  under that identifier, is unchanged, and the error handed to \<open>httpError\<close> is the
  duplicate-client error for that identifier.
\<close>

theorem ClientHandler_rejects_duplicate:
  assumes "is_CloseNotifier w" and "Query_Get (query r) ''id'' = i" and "i \<noteq> []"
    and "hasClient b i"
  shows "ClientHandler b w r xid evs =
           (b, httpError b (stream_headers w) r (DuplicateClient i) 500, Returned)
       \<and> Error (DuplicateClient i) = ''a client with id '' @ i @ '' already exists''"
  using assms
  by (simp add: ClientHandler_def Let_def client_New_def ID_def stream_headers_def)

theorem ClientHandler_rejects_duplicate_witness:
  "hasClient (broker_New 1000000000 3 None
       \<lparr>clients := [(''1234'', Conn (client_New 1000000000 3 ''1234'' []))]\<rparr>) ''1234''
   \<and> ClientHandler (broker_New 1000000000 3 None
       \<lparr>clients := [(''1234'', Conn (client_New 1000000000 3 ''1234'' []))]\<rparr>)
     \<lparr>is_Flusher = True, is_CloseNotifier = True, header = [], status = None, wire = []\<rparr>
     \<lparr>body = Inr [], query = [(''id'', ''1234'')]\<rparr> ''x'' [Received ''hello'']
   = (broker_New 1000000000 3 None
       \<lparr>clients := [(''1234'', Conn (client_New 1000000000 3 ''1234'' []))]\<rparr>,
      \<lparr>is_Flusher = True, is_CloseNotifier = True,
        header = [(''Content-Type'', ''text/plain; charset=utf-8''), (''Cache-Control'', ''no-cache''),
                  (''Connection'', ''keep-alive''), (''Access-Control-Allow-Origin'', ''*''),
                  (''X-Content-Type-Options'', ''nosniff'')],
        status = Some 500,
        wire = [Body ''a client with id 1234 already exists\<newline>'']\<rparr>,
      Returned)"
proof -
  let ?B = "broker_New 1000000000 3 None
       \<lparr>clients := [(''1234'', Conn (client_New 1000000000 3 ''1234'' []))]\<rparr>"
  let ?w = "\<lparr>is_Flusher = True, is_CloseNotifier = True, header = [], status = None, wire = []\<rparr>"
  let ?r = "\<lparr>body = Inr [], query = [(''id'', ''1234'')]\<rparr>"
  have h1: "is_CloseNotifier ?w" by simp
  have h2: "Query_Get (query ?r) ''id'' = ''1234''" by (simp add: Query_Get_def)
  have h3: "''1234'' \<noteq> []" by simp
  have h4: "hasClient ?B ''1234''" by (simp add: hasClient_def Load_def broker_New_def)
  from ClientHandler_rejects_duplicate [OF h1 h2 h3 h4, of "''x''" "[Received ''hello'']"] h4
  show ?thesis
    by (simp add: httpError_def http_Error_def stream_headers_def Header_Set_def WriteHeader_def
        broker_New_def)
qed

text \<open>
  C8. For a response writer that is a \<open>Flusher\<close> and a \<open>CloseNotifier\<close> and a
  request that is accepted, the handler takes exactly the events of \<open>taken\<close>, and
  what it writes to the response is, for each payload among them and in order,
  the frame \<open>data: \<close> payload newline newline followed at once by a flush, and
  nothing else. A payload that arrives after the close notification, while the
  handler is still in its \<open>select\<close>, is written too. The handler has returned
  exactly when an event followed the close notification; otherwise it waits.
\<close>

theorem ClientHandler_frames:
  assumes "is_Flusher w" and "is_CloseNotifier w"
    and "\<not> hasClient b (ID (client_New (timeout_b b) (tolerance_b b) (Query_Get (query r) ''id'') xid))"
  shows "wire (fst (snd (ClientHandler b w r xid evs))) = wire w @ concat (map frames (taken evs))
       \<and> snd (snd (ClientHandler b w r xid evs)) = (if after_close evs = [] then Waiting else Returned)"
proof -
  let ?c = "client_New (timeout_b b) (tolerance_b b) (Query_Get (query r) ''id'') xid"
  have run: "ClientHandler b w r xid evs
      = ClientHandler_loop (ID ?c) True (addClient b ?c) (stream_headers w) evs"
    using assms by (simp add: ClientHandler_accepts)
  have "hasClient (addClient b ?c) (ID ?c)" by (rule hasClient_addClient)
  from ClientHandler_loop_registered [OF this, of "stream_headers w" evs]
  show ?thesis
    by (simp add: run stream_headers_def wire_Header_Set)
qed

theorem ClientHandler_frames_witness:
  "\<not> hasClient (broker_New 1000000000 3 None) ''1234''
   \<and> wire (fst (snd (ClientHandler (broker_New 1000000000 3 None)
          \<lparr>is_Flusher = True, is_CloseNotifier = True, header = [], status = None, wire = []\<rparr>
          \<lparr>body = Inr [], query = [(''id'', ''1234'')]\<rparr> ''x''
          [Received ''hello world'', TimerTick, Received ''bye''])))
      = [Body ''data: hello world\<newline>\<newline>'', Flushed, Body ''data: bye\<newline>\<newline>'', Flushed]
   \<and> snd (snd (ClientHandler (broker_New 1000000000 3 None)
          \<lparr>is_Flusher = True, is_CloseNotifier = True, header = [], status = None, wire = []\<rparr>
          \<lparr>body = Inr [], query = [(''id'', ''1234'')]\<rparr> ''x''
          [Received ''hello world'', TimerTick, Received ''bye''])) = Waiting
   \<and> wire (fst (snd (ClientHandler (broker_New 1000000000 3 None)
          \<lparr>is_Flusher = True, is_CloseNotifier = True, header = [], status = None, wire = []\<rparr>
          \<lparr>body = Inr [], query = [(''id'', ''1234'')]\<rparr> ''x''
          [Received ''a'', CloseNotify, Received ''hello'', Received ''late''])))
      = [Body ''data: a\<newline>\<newline>'', Flushed, Body ''data: hello\<newline>\<newline>'', Flushed]
   \<and> snd (snd (ClientHandler (broker_New 1000000000 3 None)
          \<lparr>is_Flusher = True, is_CloseNotifier = True, header = [], status = None, wire = []\<rparr>
          \<lparr>body = Inr [], query = [(''id'', ''1234'')]\<rparr> ''x''
          [Received ''a'', CloseNotify, Received ''hello'', Received ''late''])) = Returned"
proof -
  let ?B = "broker_New 1000000000 3 None"
  let ?w = "\<lparr>is_Flusher = True, is_CloseNotifier = True, header = [], status = None, wire = []\<rparr>"
  let ?r = "\<lparr>body = Inr [], query = [(''id'', ''1234'')]\<rparr>"
  let ?e = "[Received ''hello world'', TimerTick, Received ''bye'']"
  let ?f = "[Received ''a'', CloseNotify, Received ''hello'', Received ''late'']"
  have h1: "is_Flusher ?w" and h2: "is_CloseNotifier ?w" by simp_all
  have i: "ID (client_New (timeout_b ?B) (tolerance_b ?B) (Query_Get (query ?r) ''id'') ''x'') = ''1234''"
    by (simp add: ID_def client_New_def Query_Get_def)
  have h3: "\<not> hasClient ?B ''1234''" by (simp add: hasClient_def Load_def broker_New_def)
  have h3': "\<not> hasClient ?B (ID (client_New (timeout_b ?B) (tolerance_b ?B) (Query_Get (query ?r) ''id'') ''x''))"
    unfolding i by (rule h3)
  from ClientHandler_frames [OF h1 h2 h3', of ?e]
  have e: "wire (fst (snd (ClientHandler ?B ?w ?r ''x'' ?e)))
        = [Body ''data: hello world\<newline>\<newline>'', Flushed, Body ''data: bye\<newline>\<newline>'', Flushed]
      \<and> snd (snd (ClientHandler ?B ?w ?r ''x'' ?e)) = Waiting"
    by (simp add: taken_def after_close_def)
  from ClientHandler_frames [OF h1 h2 h3', of ?f]
  have f: "wire (fst (snd (ClientHandler ?B ?w ?r ''x'' ?f)))
        = [Body ''data: a\<newline>\<newline>'', Flushed, Body ''data: hello\<newline>\<newline>'', Flushed]
      \<and> snd (snd (ClientHandler ?B ?w ?r ''x'' ?f)) = Returned"
    by (simp add: taken_def after_close_def)
  from h3 e f show ?thesis by blast
qed

section \<open>Properties of EventHandler\<close>

text \<open>
  C9. Once the body of the request has been read: when the query has no \<open>id\<close>
  parameter, or its first \<open>id\<close> parameter is empty, \<open>EventHandler\<close> answers with the
  result of \<open>Broadcast\<close>; when the first \<open>id\<close> parameter is a non-empty identifier, it
  answers with the result of \<open>BroadcastTo\<close> for that identifier.
\<close>

theorem EventHandler_dispatch:
  "(body r = Inr data \<and> (map_of (query r) ''id'' = None \<or> map_of (query r) ''id'' = Some [])
      \<longrightarrow> EventHandler b w r sel =
            (case Broadcast b sel data of
               (b', Panic) \<Rightarrow> (b', w, Panicked)
             | (b', Return (Some err)) \<Rightarrow> (b', httpError b' w r err 500, Returned)
             | (b', Return None) \<Rightarrow> (b', WriteHeader w 200, Returned)))
   \<and> (\<forall>i. body r = Inr data \<and> map_of (query r) ''id'' = Some i \<and> i \<noteq> []
      \<longrightarrow> EventHandler b w r sel =
            (case BroadcastTo b sel i data of
               (b', Some err) \<Rightarrow> (b', httpError b' w r err 500, Returned)
             | (b', None) \<Rightarrow> (b', WriteHeader w 200, Returned)))"
  by (auto simp: EventHandler_def Query_Get_def Let_def split: prod.splits result.splits option.splits)

theorem EventHandler_dispatch_witness:
  "EventHandler (broker_New 1000000000 3 None)
     \<lparr>is_Flusher = True, is_CloseNotifier = True, header = [], status = None, wire = []\<rparr>
     \<lparr>body = Inr ''hello'', query = [(''id'', [])]\<rparr> (\<lambda>k. Sent)
   = (broker_New 1000000000 3 None,
      \<lparr>is_Flusher = True, is_CloseNotifier = True, header = [], status = Some 200, wire = []\<rparr>,
      Returned)
   \<and> EventHandler (broker_New 1000000000 3 None)
     \<lparr>is_Flusher = True, is_CloseNotifier = True, header = [], status = None, wire = []\<rparr>
     \<lparr>body = Inr ''hello'', query = []\<rparr> (\<lambda>k. Sent)
   = (broker_New 1000000000 3 None,
      \<lparr>is_Flusher = True, is_CloseNotifier = True, header = [], status = Some 200, wire = []\<rparr>,
      Returned)
   \<and> wire (fst (snd (EventHandler (broker_New 1000000000 3 None)
     \<lparr>is_Flusher = True, is_CloseNotifier = True, header = [], status = None, wire = []\<rparr>
     \<lparr>body = Inr ''hello'', query = [(''id'', ''9999'')]\<rparr> (\<lambda>k. Sent))))
   = [Body ''no client with id 9999 exists\<newline>'']"
proof -
  let ?B = "broker_New 1000000000 3 None"
  let ?w = "\<lparr>is_Flusher = True, is_CloseNotifier = True, header = [], status = None, wire = []\<rparr>"
  let ?r1 = "\<lparr>body = Inr ''hello'', query = [(''id'', [])]\<rparr>"
  let ?r2 = "\<lparr>body = Inr ''hello'', query = []\<rparr>"
  let ?r3 = "\<lparr>body = Inr ''hello'', query = [(''id'', ''9999'')]\<rparr>"
  have bc: "Broadcast ?B (\<lambda>k. Sent) ''hello'' = (?B, Return None)"
    by (simp add: Broadcast_def broker_New_def)
  have p1: "body ?r1 = Inr ''hello'' \<and> (map_of (query ?r1) ''id'' = None \<or> map_of (query ?r1) ''id'' = Some [])"
    by simp
  have p2: "body ?r2 = Inr ''hello'' \<and> (map_of (query ?r2) ''id'' = None \<or> map_of (query ?r2) ''id'' = Some [])"
    by simp
  have p3: "body ?r3 = Inr ''hello'' \<and> map_of (query ?r3) ''id'' = Some ''9999'' \<and> ''9999'' \<noteq> []"
    by simp
  from EventHandler_dispatch [of ?r1 "''hello''" ?B ?w "\<lambda>k. Sent", THEN conjunct1, rule_format, OF p1]
  have e1: "EventHandler ?B ?w ?r1 (\<lambda>k. Sent) = (?B, ?w\<lparr>status := Some 200\<rparr>, Returned)"
    by (simp add: bc WriteHeader_def)
  from EventHandler_dispatch [of ?r2 "''hello''" ?B ?w "\<lambda>k. Sent", THEN conjunct1, rule_format, OF p2]
  have e2: "EventHandler ?B ?w ?r2 (\<lambda>k. Sent) = (?B, ?w\<lparr>status := Some 200\<rparr>, Returned)"
    by (simp add: bc WriteHeader_def)
  from EventHandler_dispatch [of ?r3 "''hello''" ?B ?w "\<lambda>k. Sent", THEN conjunct2, rule_format, OF p3]
  have e3: "wire (fst (snd (EventHandler ?B ?w ?r3 (\<lambda>k. Sent)))) = [Body ''no client with id 9999 exists\<newline>'']"
    by (simp add: BroadcastTo_def Load_def httpError_def http_Error_def broker_New_def
        Header_Set_def WriteHeader_def)
  from e1 e2 e3 show ?thesis by simp
qed

section \<open>The registry invariant\<close>

lemma keyed_by_ID_loop:
  "keyed_by_ID (clients b) \<Longrightarrow> keyed_by_ID (clients (fst (ClientHandler_loop i fl b w evs)))"
proof (induction evs arbitrary: b w)
  case Nil
  then show ?case by simp
next
  case (Cons ev evs)
  have del: "keyed_by_ID (clients (removeClient b i))"
    using Cons.prems by (simp add: removeClient_def keyed_by_ID_Delete)
  show ?case
  proof (cases ev)
    case (Received data)
    with Cons del show ?thesis by (cases fl) (simp_all add: Let_def)
  next
    case TimerTick
    with Cons del show ?thesis by simp
  next
    case CloseNotify
    with Cons.IH [OF del] show ?thesis by (simp add: listenForClose_def)
  qed
qed

lemma keyed_by_ID_addClient:
  "keyed_by_ID (clients b) \<Longrightarrow> keyed_by_ID (clients (addClient b c))"
  by (simp add: addClient_def keyed_by_ID_Store)

lemma keyed_by_ID_ClientHandler:
  assumes "keyed_by_ID (clients b)"
  shows "keyed_by_ID (clients (fst (ClientHandler b w r xid evs)))"
proof -
  let ?c = "client_New (timeout_b b) (tolerance_b b) (Query_Get (query r) ''id'') xid"
  show ?thesis
  proof (cases "is_CloseNotifier w \<and> \<not> hasClient b (ID ?c)")
    case True
    then show ?thesis
      using keyed_by_ID_loop [OF keyed_by_ID_addClient [OF assms]]
      by (simp add: ClientHandler_accepts)
  next
    case False
    then show ?thesis using assms by (auto simp: ClientHandler_def Let_def)
  qed
qed

lemma keyed_by_ID_BroadcastTo:
  assumes "keyed_by_ID (clients b)"
  shows "keyed_by_ID (clients (fst (BroadcastTo b sel i data)))"
proof (cases "Load (clients b) i")
  case None
  then show ?thesis using assms by (simp add: BroadcastTo_def)
next
  case (Some v)
  from keyed_by_ID_Load [OF assms Some] obtain c where v: "v = Conn c" and c: "ID c = i"
    by blast
  have "ID (fst (Write c (sel i) data)) = i" using c by (simp add: ID_Write)
  from keyed_by_ID_Store [OF assms this] show ?thesis
    by (cases "Write c (sel i) data") (simp add: BroadcastTo_def Some v)
qed

lemma keyed_by_ID_Broadcast:
  assumes "keyed_by_ID (clients b)"
  shows "keyed_by_ID (clients (fst (Broadcast b sel data)))"
  using assms by (simp add: Broadcast_def Range_Broadcast keyed_by_ID_survivors)

lemma keyed_by_ID_EventHandler:
  assumes "keyed_by_ID (clients b)"
  shows "keyed_by_ID (clients (fst (EventHandler b w r sel)))"
proof (cases "body r")
  case (Inl e)
  then show ?thesis using assms by (simp add: EventHandler_def)
next
  case (Inr data)
  show ?thesis
  proof (cases "Query_Get (query r) ''id'' = []")
    case True
    with keyed_by_ID_Broadcast [OF assms, of sel data] show ?thesis
      by (auto simp: EventHandler_def Inr Let_def split: prod.splits result.splits option.splits)
  next
    case False
    with keyed_by_ID_BroadcastTo [OF assms, of sel "Query_Get (query r) ''id''" data] show ?thesis
      by (auto simp: EventHandler_def Inr Let_def split: prod.splits result.splits option.splits)
  qed
qed

lemma reachable_keyed_by_ID: "reachable b \<Longrightarrow> keyed_by_ID (clients b)"
proof (induction rule: reachable.induct)
  case (created tmo tol eh)
  show ?case by (simp add: broker_New_def keyed_by_ID_Nil)
next
  case (connected b w r xid evs b' w' e)
  with keyed_by_ID_ClientHandler [of b w r xid evs] show ?case by simp
next
  case (resumed b i fl w evs b' w' e)
  with keyed_by_ID_loop [of b i fl w evs] show ?case by simp
next
  case (broadcast b sel data b' res)
  with keyed_by_ID_Broadcast [of b sel data] show ?case by simp
next
  case (unicast b sel i data b' err)
  with keyed_by_ID_BroadcastTo [of b sel i data] show ?case by simp
next
  case (submitted b w r sel b' w' e)
  with keyed_by_ID_EventHandler [of b w r sel] show ?case by simp
next
  case (closed b i)
  then show ?case by (simp add: listenForClose_def removeClient_def keyed_by_ID_Delete)
qed

lemma keys_evicted:
  assumes "distinct (map fst m)" and "Load m k = Some v"
  shows "map fst (Delete (Store m k v') k) = remove1 k (map fst m)"
proof -
  have "map fst (Store m k v') = map fst m"
    using assms(2) by (rule fst_Store_present)
  then have "map fst (Delete (Store m k v') k) = removeAll k (map fst m)"
    by (simp add: Delete_def delete_keys)
  with assms(1) show ?thesis by (simp add: distinct_remove1_removeAll)
qed



text \<open>
  C10. In every reachable state of a broker, every entry of the registry is a
  client whose identifier is the key of the entry. So when the function that
  \<open>Broadcast\<close> passes to \<open>Range\<close> visits an entry whose \<open>Write\<close> times out and whose
  client is then to be disconnected, removing the client by its identifier removes
  the key being visited and no other.
\<close>

theorem registry_keyed_by_ID:
  assumes "reachable b" and "Load (clients b) k = Some v"
  shows "\<exists>c. v = Conn c \<and> ID c = k
     \<and> (sel k = Ticked \<and> ShouldDisconnect (fst (Write c Ticked data)) \<longrightarrow>
          map fst (clients (fst (fst (Broadcast_func data sel (b, out) k v))))
            = remove1 k (map fst (clients b)))"
proof -
  have inv: "keyed_by_ID (clients b)" using assms(1) by (rule reachable_keyed_by_ID)
  from keyed_by_ID_Load [OF inv assms(2)] obtain c where v: "v = Conn c" and c: "ID c = k"
    by blast
  have d: "distinct (map fst (clients b))" using inv by (simp add: keyed_by_ID_def)
  have "sel k = Ticked \<Longrightarrow> ShouldDisconnect (fst (Write c Ticked data)) \<Longrightarrow>
          map fst (clients (fst (fst (Broadcast_func data sel (b, out) k v))))
            = remove1 k (map fst (clients b))"
    using keys_evicted [OF d assms(2)] c
    by (simp add: Broadcast_func_def v removeClient_def ID_def)
  with v c show ?thesis by blast
qed

theorem registry_keyed_by_ID_witness:
  "reachable (fst (ClientHandler (broker_New 1000000000 1 None)
          \<lparr>is_Flusher = True, is_CloseNotifier = True, header = [], status = None, wire = []\<rparr>
          \<lparr>body = Inr [], query = [(''id'', ''1234'')]\<rparr> ''x'' []))
   \<and> Load (clients (fst (ClientHandler (broker_New 1000000000 1 None)
          \<lparr>is_Flusher = True, is_CloseNotifier = True, header = [], status = None, wire = []\<rparr>
          \<lparr>body = Inr [], query = [(''id'', ''1234'')]\<rparr> ''x'' []))) ''1234''
     = Some (Conn (client_New 1000000000 1 ''1234'' ''x''))
   \<and> ID (client_New 1000000000 1 ''1234'' ''x'') = ''1234''
   \<and> map fst (clients (fst (fst (Broadcast_func ''hello'' (\<lambda>k. Ticked)
        (fst (ClientHandler (broker_New 1000000000 1 None)
          \<lparr>is_Flusher = True, is_CloseNotifier = True, header = [], status = None, wire = []\<rparr>
          \<lparr>body = Inr [], query = [(''id'', ''1234'')]\<rparr> ''x'' []), [])
        ''1234'' (Conn (client_New 1000000000 1 ''1234'' ''x'')))))) = []"
proof -
  let ?N = "broker_New 1000000000 1 None"
  let ?w = "\<lparr>is_Flusher = True, is_CloseNotifier = True, header = [], status = None, wire = []\<rparr>"
  let ?r = "\<lparr>body = Inr [], query = [(''id'', ''1234'')]\<rparr>"
  let ?c = "client_New 1000000000 1 ''1234'' ''x''"
  let ?B = "fst (ClientHandler ?N ?w ?r ''x'' [])"
  have run: "ClientHandler ?N ?w ?r ''x'' [] = (?N\<lparr>clients := [(''1234'', Conn ?c)]\<rparr>, stream_headers ?w, Waiting)"
    by (simp add: ClientHandler_def Let_def Query_Get_def broker_New_def client_New_def ID_def
      hasClient_def Load_def addClient_def Store_def stream_headers_def)
  have "ClientHandler ?N ?w ?r ''x'' []
      = (?B, fst (snd (ClientHandler ?N ?w ?r ''x'' [])), snd (snd (ClientHandler ?N ?w ?r ''x'' [])))"
    by simp
  then have r: "reachable ?B"
    by (rule reachable.connected [OF reachable.created])
  have l: "Load (clients ?B) ''1234'' = Some (Conn ?c)"
    by (simp add: run Load_def)
  from registry_keyed_by_ID [OF r l, of "\<lambda>k. Ticked" "''hello''" "[]"]
  have i: "ID ?c = ''1234''"
    and ev: "ShouldDisconnect (fst (Write ?c Ticked ''hello'')) \<longrightarrow>
       map fst (clients (fst (fst (Broadcast_func ''hello'' (\<lambda>k. Ticked) (?B, []) ''1234'' (Conn ?c)))))
         = remove1 ''1234'' (map fst (clients ?B))"
    by auto
  have sd: "ShouldDisconnect (fst (Write ?c Ticked ''hello''))"
    by (simp add: ShouldDisconnect_def client_New_def)
  from ev sd have "map fst (clients (fst (fst (Broadcast_func ''hello'' (\<lambda>k. Ticked) (?B, []) ''1234'' (Conn ?c))))) = []"
    by (simp add: run)
  with r l i show ?thesis by blast
qed

end
